theory Spec2Isabelle
  imports Main "HOL-Library.Sublist"
begin

section \<open>Obtaining OS information from clusters (maasserver.clusterrpc.osystems)\<close>

text \<open>
  The module asks cluster controllers for information over RPC. Two shapes of query
  occur: a query sent to every cluster, whose answers are gathered, stripped of failures
  and folded into one answer, and a query sent to the one cluster of a node, which waits
  up to 30 seconds and lets every error reach the caller.

  The responses are the dictionaries of the RPC commands. Their keys are fixed by the
  command's response schema, so each is a record here, one field per key the module
  reads, and a polymorphic field for the keys it never looks at.
\<close>

subsection \<open>Errors and gathered responses\<close>

text \<open>
  The exceptions the module's docstrings name. \<open>TimeoutError\<close> carries the number
  of seconds waited for.
\<close>

datatype error =
    NoConnectionsAvailable
  | NoSuchOperatingSystem
  | NotImplementedError
  | TimeoutError nat
  | ConnectionLost

text \<open>
  An element of what \<open>async.gather\<close> hands back is either a
  \<open>twisted.python.failure.Failure\<close> wrapping an exception, or the value a call
  returned. \<open>is_Failure r\<close> is \<open>isinstance(r, Failure)\<close>.
\<close>

datatype 'a response = is_Failure: Failure error | Success (payload: 'a)

text \<open>
  \<^verbatim>\<open>
  def suppress_failures(responses):
      for response in responses:
          if not isinstance(response, Failure):
              yield response
  \<close>
  The generator is the list of the values it yields, in the order it yields them.
\<close>

fun suppress_failures :: "'a response list \<Rightarrow> 'a list" where
  "suppress_failures [] = []"
| "suppress_failures (response # responses) =
     (if \<not> is_Failure response
      then payload response # suppress_failures responses
      else suppress_failures responses)"

subsection \<open>Release titles\<close>

text \<open>The response of \<open>GetOSReleaseTitle\<close>: \<open>{"title": ...}\<close>.\<close>

record title_response =
  title :: string

text \<open>
  \<^verbatim>\<open>
  title = ""
  for response in suppress_failures(responses):
      if response["title"] != "":
          title = response["title"]
  if title == "":
      return None
  return title
  \<close>
  The loop is \<open>get_os_release_title_loop\<close>, with the variable \<open>title\<close> as its
  first argument. The function takes what \<open>async.gather\<close> returned; Python's
  \<open>None\<close> is \<open>None\<close>.
\<close>

fun get_os_release_title_loop :: "string \<Rightarrow> title_response list \<Rightarrow> string" where
  "get_os_release_title_loop t [] = t"
| "get_os_release_title_loop t (response # responses) =
     (if title response \<noteq> ''''
      then get_os_release_title_loop (title response) responses
      else get_os_release_title_loop t responses)"

definition get_os_release_title :: "title_response response list \<Rightarrow> string option" where
  "get_os_release_title responses =
     (let t = get_os_release_title_loop '''' (suppress_failures responses)
      in if t = '''' then None else Some t)"

subsection \<open>License keys, asked of every cluster\<close>

text \<open>The response of \<open>ValidateLicenseKey\<close>: \<open>{"is_valid": ...}\<close>.\<close>

record license_response =
  is_valid :: bool

text \<open>
  \<^verbatim>\<open>
  is_valid = False
  for response in suppress_failures(responses):
      is_valid = is_valid or response["is_valid"]
  return is_valid
  \<close>
  The loop has no \<open>break\<close> and no \<open>return\<close>. To make that observable the loop
  state carries, beside \<open>is_valid\<close>, the number of responses the loop has taken
  from the generator so far.
\<close>

fun validate_license_key_loop :: "bool \<times> nat \<Rightarrow> license_response list \<Rightarrow> bool \<times> nat" where
  "validate_license_key_loop (v, n) [] = (v, n)"
| "validate_license_key_loop (v, n) (response # responses) =
     validate_license_key_loop (v \<or> is_valid response, Suc n) responses"

definition validate_license_key_run :: "license_response response list \<Rightarrow> bool \<times> nat" where
  "validate_license_key_run responses =
     validate_license_key_loop (False, 0) (suppress_failures responses)"

definition validate_license_key :: "license_response response list \<Rightarrow> bool" where
  "validate_license_key responses = fst (validate_license_key_run responses)"

subsection \<open>Operating systems, releases and uploaded boot resources\<close>

text \<open>
  An operating system as \<open>ListOperatingSystems\<close> reports it is a dictionary with a
  \<open>"name"\<close>, a list of \<open>"releases"\<close> and further keys; a release is a dictionary
  with a \<open>"name"\<close>, a \<open>"title"\<close> and further keys.

  \<open>fix_custom_osystem_release_titles\<close> assigns to \<open>release["title"]\<close>: it changes
  the release dictionaries in place, and every list that holds the operating system sees
  the change. So the release dictionaries live in a store, at addresses, and an
  operating system holds the addresses of its releases. Nothing in the module assigns to
  a key of the operating system's own dictionary, which therefore is a plain value.
\<close>

type_synonym addr = nat

record 'r release =
  release_name :: string
  release_title :: string
  release_rest :: 'r

type_synonym 'r heap = "addr \<Rightarrow> 'r release"

record 'o osystem =
  osystem_name :: string
  osystem_releases :: "addr list"
  osystem_rest :: 'o

text \<open>The response of \<open>ListOperatingSystems\<close>: \<open>{"osystems": [...]}\<close>.\<close>

record 'o list_response =
  osystems :: "'o osystem list"

text \<open>
  The rows of the \<open>BootResource\<close> table, with the three columns the module reads.
  \<open>extra\<close> is a JSON object; the module reads its \<open>"title"\<close>.
\<close>

datatype BOOT_RESOURCE_TYPE = SYNCED | GENERATED | UPLOADED

record boot_resource =
  rtype :: BOOT_RESOURCE_TYPE
  name :: string
  extra :: "string \<rightharpoonup> string"

text \<open>
  \<^verbatim>\<open>
  def get_uploaded_resource_with_name(resources, name):
      return get_one(resources.filter(name=name))
  \<close>
  A query set is the list of its rows and \<open>filter(name=name)\<close> keeps the rows of that
  name. \<open>get_one\<close> belongs to another module (maasserver.utils.orm); here it is
  a parameter, a function from the rows found to the row returned, or \<open>None\<close>.
\<close>

type_synonym get_one = "boot_resource list \<Rightarrow> boot_resource option"

definition get_uploaded_resource_with_name ::
  "get_one \<Rightarrow> boot_resource list \<Rightarrow> string \<Rightarrow> boot_resource option" where
  "get_uploaded_resource_with_name get_one resources nm =
     get_one (filter (\<lambda>r. name r = nm) resources)"

text \<open>
  \<^verbatim>\<open>
  def fix_custom_osystem_release_titles(osystem):
      custom_resources = BootResource.objects.filter(
          rtype=BOOT_RESOURCE_TYPE.UPLOADED)
      for release in osystem["releases"]:
          resource = get_uploaded_resource_with_name(
              custom_resources, release["name"])
          if resource is not None and "title" in resource.extra:
              release["title"] = resource.extra["title"]
      return osystem
  \<close>
  The loop runs over the addresses of the releases and updates the store. The function
  returns the operating system it was given, and the store it leaves behind.
\<close>

fun fix_releases_loop ::
  "get_one \<Rightarrow> boot_resource list \<Rightarrow> addr list \<Rightarrow> 'r heap \<Rightarrow> 'r heap" where
  "fix_releases_loop get_one custom_resources [] h = h"
| "fix_releases_loop get_one custom_resources (a # as) h =
     (case get_uploaded_resource_with_name get_one custom_resources (release_name (h a)) of
        None \<Rightarrow> fix_releases_loop get_one custom_resources as h
      | Some resource \<Rightarrow>
          (case extra resource ''title'' of
             None \<Rightarrow> fix_releases_loop get_one custom_resources as h
           | Some t \<Rightarrow>
               fix_releases_loop get_one custom_resources as
                 (h(a := (h a)\<lparr>release_title := t\<rparr>))))"

definition fix_custom_osystem_release_titles ::
  "get_one \<Rightarrow> boot_resource list \<Rightarrow> 'o osystem \<Rightarrow> 'r heap \<Rightarrow> 'o osystem \<times> 'r heap" where
  "fix_custom_osystem_release_titles get_one objects osystem h =
     (let custom_resources = filter (\<lambda>r. rtype r = UPLOADED) objects
      in (osystem, fix_releases_loop get_one custom_resources (osystem_releases osystem) h))"

subsection \<open>All known operating systems\<close>

text \<open>
  \<open>osystem not in seen[name]\<close> compares dictionaries with \<open>==\<close>: key by key, and
  the lists of releases element by element, each release by its current content.
\<close>

definition osystem_eq :: "'r heap \<Rightarrow> 'o osystem \<Rightarrow> 'o osystem \<Rightarrow> bool" where
  "osystem_eq h x y \<longleftrightarrow>
     osystem_name x = osystem_name y \<and>
     map h (osystem_releases x) = map h (osystem_releases y) \<and>
     osystem_rest x = osystem_rest y"

definition osystem_in :: "'r heap \<Rightarrow> 'o osystem \<Rightarrow> 'o osystem list \<Rightarrow> bool" where
  "osystem_in h x xs = list_ex (osystem_eq h x) xs"

text \<open>
  \<open>seen = defaultdict(list)\<close>: every name has a list, empty until something is
  appended to it.
\<close>

type_synonym 'o seen = "string \<Rightarrow> 'o osystem list"

text \<open>
  \<^verbatim>\<open>
  for response in suppress_failures(responses):
      for osystem in response["osystems"]:
          name = osystem["name"]
          if osystem not in seen[name]:
              seen[name].append(osystem)
              if name == "custom":
                  osystem = fix_custom_osystem_release_titles(osystem)
              yield osystem
  \<close>
  \<open>gen_osystems_loop\<close> is the inner loop and \<open>gen_responses_loop\<close> the outer one.
  Both return the operating systems yielded, in order, and the state they end in:
  \<open>seen\<close> and the store. What \<open>seen[name]\<close> holds is the operating system itself,
  not a copy: its releases are the addresses that the fix then writes to.
\<close>

fun gen_osystems_loop ::
  "get_one \<Rightarrow> boot_resource list \<Rightarrow> 'o osystem list \<Rightarrow> 'o seen \<times> 'r heap \<Rightarrow>
     'o osystem list \<times> 'o seen \<times> 'r heap" where
  "gen_osystems_loop get_one objects [] (seen, h) = ([], seen, h)"
| "gen_osystems_loop get_one objects (osystem # rest) (seen, h) =
     (let nm = osystem_name osystem in
      if \<not> osystem_in h osystem (seen nm) then
        let seen' = seen(nm := seen nm @ [osystem]);
            (osystem', h') =
              (if nm = ''custom''
               then fix_custom_osystem_release_titles get_one objects osystem h
               else (osystem, h));
            (out, st) = gen_osystems_loop get_one objects rest (seen', h')
        in (osystem' # out, st)
      else gen_osystems_loop get_one objects rest (seen, h))"

fun gen_responses_loop ::
  "get_one \<Rightarrow> boot_resource list \<Rightarrow> 'o list_response list \<Rightarrow> 'o seen \<times> 'r heap \<Rightarrow>
     'o osystem list \<times> 'o seen \<times> 'r heap" where
  "gen_responses_loop get_one objects [] st = ([], st)"
| "gen_responses_loop get_one objects (response # responses) st =
     (let (out, st') = gen_osystems_loop get_one objects (osystems response) st;
          (out', st'') = gen_responses_loop get_one objects responses st'
      in (out @ out', st''))"

text \<open>
  The function takes what \<open>async.gather\<close> returned and the store the responses live
  in, and returns what it yields and the store afterwards.
\<close>

definition gen_all_known_operating_systems ::
  "get_one \<Rightarrow> boot_resource list \<Rightarrow> 'o list_response response list \<Rightarrow> 'r heap \<Rightarrow>
     'o osystem list \<times> 'r heap" where
  "gen_all_known_operating_systems get_one objects responses h =
     (let (out, seen, h') =
            gen_responses_loop get_one objects (suppress_failures responses) (\<lambda>_. [], h)
      in (out, h'))"

text \<open>What a consumer reads off an operating system it was handed, in store \<open>h\<close>.\<close>

definition view :: "'r heap \<Rightarrow> 'o osystem \<Rightarrow> string \<times> 'r release list \<times> 'o" where
  "view h x = (osystem_name x, map h (osystem_releases x), osystem_rest x)"

text \<open>
  What the fix makes of one release, written without the loop: \<open>override_title\<close> is
  the title that the uploaded boot resource of that name supplies, if the lookup returns
  a resource and its \<open>extra\<close> has a \<open>"title"\<close>; \<open>with_override\<close> puts that title
  into the release and leaves a release without one as it is.
\<close>

definition override_title :: "get_one \<Rightarrow> boot_resource list \<Rightarrow> string \<Rightarrow> string option" where
  "override_title get_one objects nm =
     (case get_uploaded_resource_with_name get_one (filter (\<lambda>r. rtype r = UPLOADED) objects) nm of
        None \<Rightarrow> None
      | Some resource \<Rightarrow> extra resource ''title'')"

definition with_override :: "get_one \<Rightarrow> boot_resource list \<Rightarrow> 'r release \<Rightarrow> 'r release" where
  "with_override get_one objects r =
     (case override_title get_one objects (release_name r) of
        None \<Rightarrow> r
      | Some t \<Rightarrow> r\<lparr>release_title := t\<rparr>)"

subsection \<open>Sample data\<close>

text \<open>
  A \<open>get_one\<close> that returns the first row, three boot resources (an uploaded one with
  a title, an uploaded one without, a synced one with a title), a store that holds the
  same three releases twice, at addresses 0, 2, 3 and at addresses 1, 4, 5, and
  operating systems \<open>a\<close> and \<open>b\<close> that are equal dictionaries in it, without sharing
  a release: two responses as they come in from two clusters.
\<close>

abbreviation first_row :: get_one where
  "first_row \<equiv> (\<lambda>rows. case rows of [] \<Rightarrow> None | r # _ \<Rightarrow> Some r)"

abbreviation sample_objects :: "boot_resource list" where
  "sample_objects \<equiv>
     [\<lparr>rtype = UPLOADED, name = ''img'', extra = [''title'' \<mapsto> ''My image'']\<rparr>,
      \<lparr>rtype = UPLOADED, name = ''raw'', extra = Map.empty\<rparr>,
      \<lparr>rtype = SYNCED, name = ''trusty'', extra = [''title'' \<mapsto> ''Ubuntu 14.04'']\<rparr>]"

abbreviation sample_heap :: "unit heap" where
  "sample_heap \<equiv>
     (\<lambda>_. \<lparr>release_name = ''img'', release_title = ''img'', release_rest = ()\<rparr>)
       (2 := \<lparr>release_name = ''raw'', release_title = ''raw'', release_rest = ()\<rparr>,
        3 := \<lparr>release_name = ''trusty'', release_title = ''trusty'', release_rest = ()\<rparr>,
        4 := \<lparr>release_name = ''raw'', release_title = ''raw'', release_rest = ()\<rparr>,
        5 := \<lparr>release_name = ''trusty'', release_title = ''trusty'', release_rest = ()\<rparr>)"

abbreviation custom_a :: "unit osystem" where
  "custom_a \<equiv> \<lparr>osystem_name = ''custom'', osystem_releases = [0, 2, 3], osystem_rest = ()\<rparr>"

abbreviation custom_b :: "unit osystem" where
  "custom_b \<equiv> \<lparr>osystem_name = ''custom'', osystem_releases = [1, 4, 5], osystem_rest = ()\<rparr>"

abbreviation ubuntu_a :: "unit osystem" where
  "ubuntu_a \<equiv> \<lparr>osystem_name = ''ubuntu'', osystem_releases = [0, 2, 3], osystem_rest = ()\<rparr>"

abbreviation ubuntu_b :: "unit osystem" where
  "ubuntu_b \<equiv> \<lparr>osystem_name = ''ubuntu'', osystem_releases = [1, 4, 5], osystem_rest = ()\<rparr>"

subsection \<open>Calls to the cluster of one node\<close>

text \<open>
  The model instances the module reads from, with the attributes it reads.
  \<open>node_osystem\<close> is what \<open>node.get_osystem()\<close> returns, \<open>consumer_key\<close> is
  \<open>token.consumer.key\<close>.
\<close>

type_synonym uuid = string

record nodegroup =
  uuid :: uuid

record node =
  node_nodegroup :: nodegroup
  node_osystem :: string
  system_id :: string
  hostname :: string
  disable_ipv4 :: bool

record token =
  consumer_key :: string
  key :: string
  secret :: string

text \<open>
  The RPC commands, and the keyword arguments of a call. \<open>ParsedUrl u\<close> is
  \<open>urlparse(u)\<close>; \<open>Config c\<close> is the network configuration handed to
  \<open>compose_curtin_network_preseed\<close>.
\<close>

datatype command =
    ListOperatingSystems
  | GetOSReleaseTitle
  | GetPreseedData
  | ComposeCurtinNetworkPreseed
  | ValidateLicenseKey

datatype 'c arg = Str string | Bool bool | ParsedUrl string | Config 'c

type_synonym 'c kwargs = "(string \<times> 'c arg) list"

text \<open>
  A call that has been issued: \<open>settles_after\<close> is the number of seconds after which
  the answer is there (\<open>None\<close>: it never comes), \<open>answer\<close> is what it then is, an
  exception or the response dictionary. A client is a function from the command and its
  arguments to the call it issues.
\<close>

record 'v call =
  settles_after :: "nat option"
  answer :: "error + (string \<rightharpoonup> 'v)"

type_synonym ('c, 'v) client = "command \<Rightarrow> 'c kwargs \<Rightarrow> 'v call"

text \<open>
  What the functions below do to the world: the remote calls issued so far, and the
  seconds the caller has spent blocked.
\<close>

record 'c world =
  issued :: "(command \<times> 'c kwargs) list"
  blocked :: nat

text \<open>
  Modelled from the spec: \<open>getClientFor\<close> (maasserver.rpc), the connection registry's
  \<open>connectionFor(agentID)\<close>, which returns the live connection of the agent and fails
  with \<open>NoConnectionsAvailable\<close> if the agent has none. The registry is a map from
  the cluster's UUID to its client.
\<close>

definition getClientFor :: "(uuid \<rightharpoonup> ('c, 'v) client) \<Rightarrow> uuid \<Rightarrow> error + ('c, 'v) client" where
  "getClientFor registry u =
     (case registry u of None \<Rightarrow> Inl NoConnectionsAvailable | Some client \<Rightarrow> Inr client)"

text \<open>
  Modelled from the spec: \<open>call.wait(timeout)\<close>, which blocks the caller until the
  call completes or the deadline elapses, returns the response or raises the call's
  exception on completion within the deadline, and on expiry fails with a timeout that
  carries the bound.
\<close>

definition wait :: "'v call \<Rightarrow> nat \<Rightarrow> 'c world \<Rightarrow> (error + (string \<rightharpoonup> 'v)) \<times> 'c world" where
  "wait c timeout w =
     (case settles_after c of
        Some t \<Rightarrow>
          if t \<le> timeout then (answer c, w\<lparr>blocked := blocked w + t\<rparr>)
          else (Inl (TimeoutError timeout), w\<lparr>blocked := blocked w + timeout\<rparr>)
      | None \<Rightarrow> (Inl (TimeoutError timeout), w\<lparr>blocked := blocked w + timeout\<rparr>))"

text \<open>
  \<open>client(command, **kwargs)\<close>: the call is issued, which the world records, and
  its handle returned.
\<close>

definition issue ::
  "('c, 'v) client \<Rightarrow> command \<Rightarrow> 'c kwargs \<Rightarrow> 'c world \<Rightarrow> 'v call \<times> 'c world" where
  "issue client cmd kw w = (client cmd kw, w\<lparr>issued := issued w @ [(cmd, kw)]\<rparr>)"

text \<open>
  \<^verbatim>\<open>
  client = getClientFor(node.nodegroup.uuid)
  call = client(
      GetPreseedData, osystem=node.get_osystem(), preseed_type=preseed_type,
      node_system_id=node.system_id, node_hostname=node.hostname,
      consumer_key=token.consumer.key, token_key=token.key,
      token_secret=token.secret, metadata_url=urlparse(metadata_url))
  return call.wait(30).get("data")
  \<close>
  There is no \<open>try\<close>: an exception of any of the three lines ends the function.
  \<open>d.get("data")\<close> is the value under the key, or \<open>None\<close>.
\<close>

definition get_preseed_data ::
  "(uuid \<rightharpoonup> ('c, 'v) client) \<Rightarrow> string \<Rightarrow> node \<Rightarrow> token \<Rightarrow> string \<Rightarrow> 'c world \<Rightarrow>
     (error + 'v option) \<times> 'c world" where
  "get_preseed_data registry preseed_type nd tok metadata_url w =
     (case getClientFor registry (uuid (node_nodegroup nd)) of
        Inl e \<Rightarrow> (Inl e, w)
      | Inr client \<Rightarrow>
          (let (c, w1) = issue client GetPreseedData
                 [(''osystem'', Str (node_osystem nd)),
                  (''preseed_type'', Str preseed_type),
                  (''node_system_id'', Str (system_id nd)),
                  (''node_hostname'', Str (hostname nd)),
                  (''consumer_key'', Str (consumer_key tok)),
                  (''token_key'', Str (key tok)),
                  (''token_secret'', Str (secret tok)),
                  (''metadata_url'', ParsedUrl metadata_url)] w
           in case wait c 30 w1 of
                (Inl e, w2) \<Rightarrow> (Inl e, w2)
              | (Inr response, w2) \<Rightarrow> (Inr (response ''data''), w2)))"

text \<open>
  \<^verbatim>\<open>
  client = getClientFor(node.nodegroup.uuid)
  call = client(
      ComposeCurtinNetworkPreseed, osystem=node.get_osystem(), config=config,
      disable_ipv4=node.disable_ipv4)
  return call.wait(30).get("data")
  \<close>
\<close>

definition compose_curtin_network_preseed ::
  "(uuid \<rightharpoonup> ('c, 'v) client) \<Rightarrow> node \<Rightarrow> 'c \<Rightarrow> 'c world \<Rightarrow> (error + 'v option) \<times> 'c world" where
  "compose_curtin_network_preseed registry nd config w =
     (case getClientFor registry (uuid (node_nodegroup nd)) of
        Inl e \<Rightarrow> (Inl e, w)
      | Inr client \<Rightarrow>
          (let (c, w1) = issue client ComposeCurtinNetworkPreseed
                 [(''osystem'', Str (node_osystem nd)),
                  (''config'', Config config),
                  (''disable_ipv4'', Bool (disable_ipv4 nd))] w
           in case wait c 30 w1 of
                (Inl e, w2) \<Rightarrow> (Inl e, w2)
              | (Inr response, w2) \<Rightarrow> (Inr (response ''data''), w2)))"

text \<open>
  \<^verbatim>\<open>
  client = getClientFor(nodegroup.uuid)
  call = client(
      ValidateLicenseKey, osystem=osystem, release=release, key=key)
  return call.wait(30).get("is_valid")
  \<close>
\<close>

definition validate_license_key_for ::
  "(uuid \<rightharpoonup> ('c, 'v) client) \<Rightarrow> nodegroup \<Rightarrow> string \<Rightarrow> string \<Rightarrow> string \<Rightarrow> 'c world \<Rightarrow>
     (error + 'v option) \<times> 'c world" where
  "validate_license_key_for registry ng osystem release k w =
     (case getClientFor registry (uuid ng) of
        Inl e \<Rightarrow> (Inl e, w)
      | Inr client \<Rightarrow>
          (let (c, w1) = issue client ValidateLicenseKey
                 [(''osystem'', Str osystem),
                  (''release'', Str release),
                  (''key'', Str k)] w
           in case wait c 30 w1 of
                (Inl e, w2) \<Rightarrow> (Inl e, w2)
              | (Inr response, w2) \<Rightarrow> (Inr (response ''is_valid''), w2)))"


section \<open>Properties\<close>

subsection \<open>The failure filter\<close>

lemma suppress_failures_filter:
  "map Success (suppress_failures rs) = filter (\<lambda>r. \<not> is_Failure r) rs"
  by (induction rs) (auto simp: response.expand)

lemma suppress_failures_length: "length (suppress_failures rs) \<le> length rs"
  by (induction rs) auto

lemma suppress_failures_subseq: "subseq (map Success (suppress_failures rs)) rs"
  by (simp add: suppress_failures_filter)

lemma suppress_failures_append:
  "suppress_failures (xs @ ys) = suppress_failures xs @ suppress_failures ys"
  by (induction xs) auto

lemma suppress_failures_positions:
  "\<exists>js. length js = length (suppress_failures rs) \<and> sorted_wrt (<) js \<and>
        (\<forall>k<length js. js ! k < length rs \<and> rs ! (js ! k) = Success (suppress_failures rs ! k)) \<and>
        (\<forall>j<length rs. j \<notin> set js \<longrightarrow> is_Failure (rs ! j))"
proof (induction rs rule: rev_induct)
  case Nil
  show ?case by simp
next
  case (snoc r rs)
  then obtain js where js: "length js = length (suppress_failures rs)" "sorted_wrt (<) js"
    "\<forall>k<length js. js ! k < length rs \<and> rs ! (js ! k) = Success (suppress_failures rs ! k)"
    "\<forall>j<length rs. j \<notin> set js \<longrightarrow> is_Failure (rs ! j)"
    by blast
  have bound: "\<forall>j\<in>set js. j < length rs"
    using js(3) by (metis in_set_conv_nth)
  show ?case
  proof (cases "is_Failure r")
    case True
    have "length js = length (suppress_failures (rs @ [r]))"
      using True js(1) by (simp add: suppress_failures_append)
    moreover have "\<forall>k<length js. js ! k < length (rs @ [r]) \<and>
        (rs @ [r]) ! (js ! k) = Success (suppress_failures (rs @ [r]) ! k)"
      using True js(3) by (auto simp: suppress_failures_append nth_append less_Suc_eq)
    moreover have "\<forall>j<length (rs @ [r]). j \<notin> set js \<longrightarrow> is_Failure ((rs @ [r]) ! j)"
      using True js(4) by (auto simp: nth_append less_Suc_eq)
    ultimately show ?thesis using js(2) by blast
  next
    case False
    then have r: "r = Success (payload r)" by (cases r) auto
    let ?js = "js @ [length rs]"
    have 1: "length ?js = length (suppress_failures (rs @ [r]))"
      using False js(1) by (simp add: suppress_failures_append)
    have 2: "sorted_wrt (<) ?js"
      using js(2) bound by (simp add: sorted_wrt_append)
    have 3: "\<forall>k<length ?js. ?js ! k < length (rs @ [r]) \<and>
        (rs @ [r]) ! (?js ! k) = Success (suppress_failures (rs @ [r]) ! k)"
    proof (intro allI impI)
      fix k assume k: "k < length ?js"
      show "?js ! k < length (rs @ [r]) \<and>
        (rs @ [r]) ! (?js ! k) = Success (suppress_failures (rs @ [r]) ! k)"
      proof (cases "k < length js")
        case True
        then show ?thesis
          using js(3) js(1) False by (auto simp: suppress_failures_append nth_append less_Suc_eq)
      next
        case False
        with k have "k = length js" by simp
        then show ?thesis
          using js(1) r \<open>\<not> is_Failure r\<close> by (simp add: suppress_failures_append nth_append)
      qed
    qed
    have 4: "\<forall>j<length (rs @ [r]). j \<notin> set ?js \<longrightarrow> is_Failure ((rs @ [r]) ! j)"
      using js(4) by (auto simp: nth_append less_Suc_eq)
    show ?thesis using 1 2 3 4 by blast
  qed
qed

text \<open>
  Claim C1. \<open>suppress_failures\<close> yields exactly the responses that are not failures, in
  the order they came in: wrapped again, its output is the input with the failures
  filtered out. So the output is no longer than the input, and there is an increasing
  list of input positions \<open>js\<close>, one per output element, such that the \<open>k\<close>-th output
  is the value at input position \<open>js ! k\<close>, and every input position that is not in
  \<open>js\<close> holds a failure.
\<close>

theorem suppress_failures_correct:
  "map Success (suppress_failures rs) = filter (\<lambda>r. \<not> is_Failure r) rs \<and>
   length (suppress_failures rs) \<le> length rs \<and>
   (\<exists>js. length js = length (suppress_failures rs) \<and> sorted_wrt (<) js \<and>
        (\<forall>k<length js. js ! k < length rs \<and> rs ! (js ! k) = Success (suppress_failures rs ! k)) \<and>
        (\<forall>j<length rs. j \<notin> set js \<longrightarrow> is_Failure (rs ! j)))"
  using suppress_failures_filter [of rs] suppress_failures_length [of rs]
    suppress_failures_positions [of rs] by blast

theorem suppress_failures_correct_witness:
  "suppress_failures [Success (1::nat), Failure ConnectionLost, Success 2] = [1, 2] \<and>
   (\<exists>js. length js = length [1::nat, 2] \<and> sorted_wrt (<) js \<and>
         (\<forall>k<length js. js ! k < length [Success (1::nat), Failure ConnectionLost, Success 2] \<and>
            [Success (1::nat), Failure ConnectionLost, Success 2] ! (js ! k) = Success ([1, 2] ! k)) \<and>
         (\<forall>j<length [Success (1::nat), Failure ConnectionLost, Success 2]. j \<notin> set js \<longrightarrow>
            is_Failure ([Success (1::nat), Failure ConnectionLost, Success 2] ! j)))"
  using suppress_failures_correct [of "[Success (1::nat), Failure ConnectionLost, Success 2]"]
  by simp

subsection \<open>The title of a release\<close>

lemma get_os_release_title_loop_last:
  "get_os_release_title_loop t rs =
     (let ts = filter (\<lambda>s. s \<noteq> '''') (map title rs) in if ts = [] then t else last ts)"
  by (induction rs arbitrary: t) (auto simp: Let_def)

text \<open>
  Claim C3. \<open>get_os_release_title\<close> returns the last title that is not the empty
  string among the responses that are not failures; if there is no such title (no
  response at all, or only empty titles) it returns the empty result, \<open>None\<close>.
\<close>

theorem get_os_release_title_last_nonempty:
  "get_os_release_title rs =
     (let ts = filter (\<lambda>s. s \<noteq> '''') (map title (suppress_failures rs))
      in if ts = [] then None else Some (last ts))"
proof -
  let ?ts = "filter (\<lambda>s. s \<noteq> '''') (map title (suppress_failures rs))"
  have "?ts \<noteq> [] \<Longrightarrow> last ?ts \<noteq> ''''"
    using last_in_set [of ?ts] by auto
  then show ?thesis
    by (auto simp: get_os_release_title_def get_os_release_title_loop_last Let_def)
qed

text \<open>
  Claim C9. \<open>get_os_release_title\<close> never returns the empty string: the result is
  \<open>None\<close> or a title that is not empty, and it is \<open>None\<close> exactly when every
  response that is not a failure has the empty title (in particular when there is none).
\<close>

theorem get_os_release_title_never_empty:
  "get_os_release_title rs \<noteq> Some '''' \<and>
   (get_os_release_title rs = None \<longleftrightarrow> (\<forall>r\<in>set (suppress_failures rs). title r = ''''))"
proof -
  let ?ts = "filter (\<lambda>s. s \<noteq> '''') (map title (suppress_failures rs))"
  have "?ts \<noteq> [] \<Longrightarrow> last ?ts \<noteq> ''''"
    using last_in_set [of ?ts] by auto
  moreover have "?ts = [] \<longleftrightarrow> (\<forall>r\<in>set (suppress_failures rs). title r = '''')"
    by (auto simp: filter_empty_conv)
  ultimately show ?thesis
    by (auto simp: get_os_release_title_def get_os_release_title_loop_last Let_def)
qed

theorem get_os_release_title_never_empty_witness:
  "get_os_release_title
     [Success \<lparr>title = ''''\<rparr>, Failure ConnectionLost, Success \<lparr>title = ''''\<rparr>] = None \<and>
   get_os_release_title [Success \<lparr>title = ''''\<rparr>, Success \<lparr>title = ''Trusty''\<rparr>] \<noteq> None \<and>
   get_os_release_title [] = None"
  using
    get_os_release_title_never_empty
      [of "[Success \<lparr>title = ''''\<rparr>, Failure ConnectionLost, Success \<lparr>title = ''''\<rparr>]"]
    get_os_release_title_never_empty
      [of "[Success \<lparr>title = ''''\<rparr>, Success \<lparr>title = ''Trusty''\<rparr>]"]
    get_os_release_title_never_empty [of "[]"]
  by simp

subsection \<open>The license key, asked of every cluster\<close>

lemma validate_license_key_loop_eq:
  "validate_license_key_loop (v, n) rs = (v \<or> (\<exists>r\<in>set rs. is_valid r), n + length rs)"
  by (induction rs arbitrary: v n) auto

text \<open>
  Claim C4. \<open>validate_license_key\<close> returns true if and only if at least one response
  that is not a failure says the key is valid, and false when there is no response; the
  loop takes every response from the generator, also after the first one that says
  valid: the number of responses it has taken is the number there are.
\<close>

theorem validate_license_key_any:
  "(validate_license_key rs \<longleftrightarrow> (\<exists>r\<in>set (suppress_failures rs). is_valid r)) \<and>
   \<not> validate_license_key [] \<and>
   snd (validate_license_key_run rs) = length (suppress_failures rs)"
  by (simp add: validate_license_key_def validate_license_key_run_def validate_license_key_loop_eq)

theorem validate_license_key_any_witness:
  "validate_license_key
     [Success \<lparr>is_valid = False\<rparr>, Success \<lparr>is_valid = True\<rparr>, Failure ConnectionLost,
      Success \<lparr>is_valid = False\<rparr>] \<and>
   snd (validate_license_key_run
     [Success \<lparr>is_valid = False\<rparr>, Success \<lparr>is_valid = True\<rparr>, Failure ConnectionLost,
      Success \<lparr>is_valid = False\<rparr>]) = 3 \<and>
   \<not> validate_license_key [Success \<lparr>is_valid = False\<rparr>, Success \<lparr>is_valid = False\<rparr>]"
  using
    validate_license_key_any
      [of "[Success \<lparr>is_valid = False\<rparr>, Success \<lparr>is_valid = True\<rparr>, Failure ConnectionLost,
            Success \<lparr>is_valid = False\<rparr>]"]
    validate_license_key_any
      [of "[Success \<lparr>is_valid = False\<rparr>, Success \<lparr>is_valid = False\<rparr>]"]
  by simp

subsection \<open>Calls to the cluster of one node\<close>

text \<open>
  Claim C6. When the registry has no connection for the cluster's UUID, each of
  \<open>get_preseed_data\<close>, \<open>compose_curtin_network_preseed\<close> and
  \<open>validate_license_key_for\<close> fails with \<open>NoConnectionsAvailable\<close> and leaves
  the world as it was: no remote call has been issued, and the caller has not waited.
\<close>

theorem no_connection_no_call:
  "(registry (uuid (node_nodegroup nd)) = None \<longrightarrow>
      get_preseed_data registry preseed_type nd tok metadata_url w = (Inl NoConnectionsAvailable, w) \<and>
      compose_curtin_network_preseed registry nd config w = (Inl NoConnectionsAvailable, w)) \<and>
   (registry (uuid ng) = None \<longrightarrow>
      validate_license_key_for registry ng osystem release k w = (Inl NoConnectionsAvailable, w))"
  by (simp add: get_preseed_data_def compose_curtin_network_preseed_def
      validate_license_key_for_def getClientFor_def)

theorem no_connection_no_call_witness:
  "get_preseed_data (Map.empty :: uuid \<rightharpoonup> (unit, string) client) ''curtin''
     \<lparr>node_nodegroup = \<lparr>uuid = ''c1''\<rparr>, node_osystem = ''ubuntu'', system_id = ''n1'',
      hostname = ''host'', disable_ipv4 = False\<rparr>
     \<lparr>consumer_key = ''ck'', key = ''tk'', secret = ''ts''\<rparr>
     ''http://maas/metadata'' \<lparr>issued = [], blocked = 0\<rparr>
     = (Inl NoConnectionsAvailable, \<lparr>issued = [], blocked = 0\<rparr>) \<and>
   validate_license_key_for (Map.empty :: uuid \<rightharpoonup> (unit, string) client)
     \<lparr>uuid = ''c1''\<rparr> ''windows'' ''win2012'' ''KEY'' \<lparr>issued = [], blocked = 0\<rparr>
     = (Inl NoConnectionsAvailable, \<lparr>issued = [], blocked = 0\<rparr>)"
  using
    no_connection_no_call
      [of "Map.empty :: uuid \<rightharpoonup> (unit, string) client"
          "\<lparr>node_nodegroup = \<lparr>uuid = ''c1''\<rparr>, node_osystem = ''ubuntu'', system_id = ''n1'',
            hostname = ''host'', disable_ipv4 = False\<rparr>"
          "''curtin''" "\<lparr>consumer_key = ''ck'', key = ''tk'', secret = ''ts''\<rparr>"
          "''http://maas/metadata''" "\<lparr>issued = [], blocked = 0\<rparr>" _ "\<lparr>uuid = ''c1''\<rparr>"
          "''windows''" "''win2012''" "''KEY''"]
  by simp






subsection \<open>The fix of the custom operating system's release titles\<close>

lemma with_override_name [simp]: "release_name (with_override g db r) = release_name r"
  by (simp add: with_override_def split: option.splits)

lemma with_override_rest [simp]: "release_rest (with_override g db r) = release_rest r"
  by (simp add: with_override_def split: option.splits)

lemma with_override_idem [simp]: "with_override g db (with_override g db r) = with_override g db r"
  by (simp add: with_override_def split: option.splits)

lemma fix_releases_loop_step:
  "fix_releases_loop g (filter (\<lambda>r. rtype r = UPLOADED) db) (a # as) h =
     fix_releases_loop g (filter (\<lambda>r. rtype r = UPLOADED) db) as (h(a := with_override g db (h a)))"
  by (simp add: with_override_def override_title_def split: option.splits)

lemma fix_releases_loop_eq:
  "fix_releases_loop g (filter (\<lambda>r. rtype r = UPLOADED) db) as h =
     (\<lambda>a. if a \<in> set as then with_override g db (h a) else h a)"
proof (induction as arbitrary: h)
  case Nil
  show ?case by simp
next
  case (Cons a as)
  show ?case
    unfolding fix_releases_loop_step Cons.IH
    by (rule ext) auto
qed

lemma fix_custom_eq:
  "fix_custom_osystem_release_titles g db os h =
     (os, \<lambda>a. if a \<in> set (osystem_releases os) then with_override g db (h a) else h a)"
  by (simp add: fix_custom_osystem_release_titles_def fix_releases_loop_eq)

text \<open>
  Claim C10. \<open>fix_custom_osystem_release_titles\<close> returns the operating system it was
  given, whose own keys it does not touch, and changes the store in titles only: a
  release that is not one of the operating system's releases is as before; the name and
  the other keys of every release are as before; and a title that has changed belongs to
  one of the operating system's releases, for whose name the lookup among the uploaded
  boot resources returned a resource with a \<open>"title"\<close>, which is the new title.
\<close>

theorem fix_custom_osystem_release_titles_frame:
  assumes "fix_custom_osystem_release_titles g db os h = (os', h')"
  shows "os' = os \<and>
     (\<forall>a. a \<notin> set (osystem_releases os) \<longrightarrow> h' a = h a) \<and>
     (\<forall>a. release_name (h' a) = release_name (h a) \<and> release_rest (h' a) = release_rest (h a)) \<and>
     (\<forall>a. release_title (h' a) \<noteq> release_title (h a) \<longrightarrow>
        a \<in> set (osystem_releases os) \<and>
        (\<exists>resource t.
           get_uploaded_resource_with_name g (filter (\<lambda>r. rtype r = UPLOADED) db)
             (release_name (h a)) = Some resource \<and>
           extra resource ''title'' = Some t \<and> release_title (h' a) = t))"
proof -
  have os: "os' = os"
    and h': "h' = (\<lambda>a. if a \<in> set (osystem_releases os) then with_override g db (h a) else h a)"
    using assms by (auto simp: fix_custom_eq)
  have "\<forall>a. a \<notin> set (osystem_releases os) \<longrightarrow> h' a = h a"
    by (simp add: h')
  moreover have "\<forall>a. release_name (h' a) = release_name (h a) \<and> release_rest (h' a) = release_rest (h a)"
    by (simp add: h')
  moreover have "\<forall>a. release_title (h' a) \<noteq> release_title (h a) \<longrightarrow>
        a \<in> set (osystem_releases os) \<and>
        (\<exists>resource t.
           get_uploaded_resource_with_name g (filter (\<lambda>r. rtype r = UPLOADED) db)
             (release_name (h a)) = Some resource \<and>
           extra resource ''title'' = Some t \<and> release_title (h' a) = t)"
    by (auto simp: h' with_override_def override_title_def split: option.splits if_splits)
  ultimately show ?thesis using os by blast
qed

theorem fix_custom_osystem_release_titles_frame_witness:
  "fst (fix_custom_osystem_release_titles first_row sample_objects custom_a sample_heap) = custom_a \<and>
   snd (fix_custom_osystem_release_titles first_row sample_objects custom_a sample_heap) 1 = sample_heap 1 \<and>
   release_name (snd (fix_custom_osystem_release_titles first_row sample_objects custom_a sample_heap) 0) = ''img''"
  using
    fix_custom_osystem_release_titles_frame [where g = first_row and db = sample_objects
      and os = custom_a and h = sample_heap
      and os' = "fst (fix_custom_osystem_release_titles first_row sample_objects custom_a sample_heap)"
      and h' = "snd (fix_custom_osystem_release_titles first_row sample_objects custom_a sample_heap)"]
  by simp

subsection \<open>All known operating systems\<close>

lemma gen_osystems_loop_heap:
  "gen_osystems_loop g db xs (seen, h) = (out, seen', h') \<Longrightarrow>
     h' a = h a \<or> h' a = with_override g db (h a)"
proof (induction xs arbitrary: seen h out seen' h')
  case Nil
  then show ?case by simp
next
  case (Cons x xs)
  show ?case
  proof (cases "osystem_in h x (seen (osystem_name x))")
    case True
    with Cons.prems have "gen_osystems_loop g db xs (seen, h) = (out, seen', h')"
      by simp
    then show ?thesis by (rule Cons.IH)
  next
    case False
    define h1 where "h1 = (if osystem_name x = ''custom''
        then snd (fix_custom_osystem_release_titles g db x h) else h)"
    define seen1 where "seen1 = seen(osystem_name x := seen (osystem_name x) @ [x])"
    obtain out2 seen2 h2 where rec: "gen_osystems_loop g db xs (seen1, h1) = (out2, seen2, h2)"
      by (metis prod_cases3)
    have "h' = h2"
      using Cons.prems False rec
      by (auto simp: Let_def h1_def seen1_def fix_custom_eq split: if_splits)
    moreover have "h2 a = h1 a \<or> h2 a = with_override g db (h1 a)"
      using rec by (rule Cons.IH)
    moreover have "h1 a = h a \<or> h1 a = with_override g db (h a)"
      by (simp add: h1_def fix_custom_eq)
    ultimately show ?thesis by auto
  qed
qed

lemma gen_osystems_loop_custom:
  "gen_osystems_loop g db xs (seen, h) = (out, seen', h') \<Longrightarrow>
     x \<in> set out \<Longrightarrow> osystem_name x = ''custom'' \<Longrightarrow> a \<in> set (osystem_releases x) \<Longrightarrow>
     h' a = with_override g db (h a)"
proof (induction xs arbitrary: seen h out seen' h')
  case Nil
  then show ?case by simp
next
  case (Cons y ys)
  show ?case
  proof (cases "osystem_in h y (seen (osystem_name y))")
    case True
    with Cons.prems(1) have "gen_osystems_loop g db ys (seen, h) = (out, seen', h')"
      by simp
    then show ?thesis using Cons.prems(2-4) by (rule Cons.IH)
  next
    case False
    define h1 where "h1 = (if osystem_name y = ''custom''
        then snd (fix_custom_osystem_release_titles g db y h) else h)"
    define seen1 where "seen1 = seen(osystem_name y := seen (osystem_name y) @ [y])"
    obtain out2 seen2 h2 where rec: "gen_osystems_loop g db ys (seen1, h1) = (out2, seen2, h2)"
      by (metis prod_cases3)
    have res: "out = y # out2" "h' = h2"
      using Cons.prems(1) False rec
      by (auto simp: Let_def h1_def seen1_def fix_custom_eq split: if_splits)
    have h1: "h1 a = h a \<or> h1 a = with_override g db (h a)"
      by (simp add: h1_def fix_custom_eq)
    from Cons.prems(2) res(1) consider "x = y" | "x \<in> set out2" by auto
    then show ?thesis
    proof cases
      case 1
      then have "h1 a = with_override g db (h a)"
        using Cons.prems(3,4) by (simp add: h1_def fix_custom_eq)
      moreover have "h2 a = h1 a \<or> h2 a = with_override g db (h1 a)"
        using rec by (rule gen_osystems_loop_heap)
      ultimately show ?thesis using res(2) by auto
    next
      case 2
      have "h2 a = with_override g db (h1 a)"
        using rec 2 Cons.prems(3,4) by (rule Cons.IH)
      then show ?thesis using h1 res(2) by auto
    qed
  qed
qed

lemma gen_responses_loop_heap:
  "gen_responses_loop g db rs (seen, h) = (out, seen', h') \<Longrightarrow>
     h' a = h a \<or> h' a = with_override g db (h a)"
proof (induction rs arbitrary: seen h out seen' h')
  case Nil
  then show ?case by simp
next
  case (Cons r rs)
  obtain out1 seen1 h1 where one: "gen_osystems_loop g db (osystems r) (seen, h) = (out1, seen1, h1)"
    by (metis prod_cases3)
  obtain out2 seen2 h2 where two: "gen_responses_loop g db rs (seen1, h1) = (out2, seen2, h2)"
    by (metis prod_cases3)
  have "h' = h2" using Cons.prems one two by simp
  moreover have "h1 a = h a \<or> h1 a = with_override g db (h a)"
    using one by (rule gen_osystems_loop_heap)
  moreover have "h2 a = h1 a \<or> h2 a = with_override g db (h1 a)"
    using two by (rule Cons.IH)
  ultimately show ?case by auto
qed

lemma gen_responses_loop_custom:
  "gen_responses_loop g db rs (seen, h) = (out, seen', h') \<Longrightarrow>
     x \<in> set out \<Longrightarrow> osystem_name x = ''custom'' \<Longrightarrow> a \<in> set (osystem_releases x) \<Longrightarrow>
     h' a = with_override g db (h a)"
proof (induction rs arbitrary: seen h out seen' h')
  case Nil
  then show ?case by simp
next
  case (Cons r rs)
  obtain out1 seen1 h1 where one: "gen_osystems_loop g db (osystems r) (seen, h) = (out1, seen1, h1)"
    by (metis prod_cases3)
  obtain out2 seen2 h2 where two: "gen_responses_loop g db rs (seen1, h1) = (out2, seen2, h2)"
    by (metis prod_cases3)
  have res: "out = out1 @ out2" "h' = h2" using Cons.prems(1) one two by simp_all
  have h1: "h1 a = h a \<or> h1 a = with_override g db (h a)"
    using one by (rule gen_osystems_loop_heap)
  from Cons.prems(2) res(1) consider "x \<in> set out1" | "x \<in> set out2" by auto
  then show ?case
  proof cases
    case 1
    have "h1 a = with_override g db (h a)"
      using one 1 Cons.prems(3,4) by (rule gen_osystems_loop_custom)
    moreover have "h2 a = h1 a \<or> h2 a = with_override g db (h1 a)"
      using two by (rule gen_responses_loop_heap)
    ultimately show ?thesis using res(2) by auto
  next
    case 2
    have "h2 a = with_override g db (h1 a)"
      using two 2 Cons.prems(3,4) by (rule Cons.IH)
    then show ?thesis using h1 res(2) by auto
  qed
qed

lemma gen_all_custom:
  assumes "gen_all_known_operating_systems g db responses h = (out, h')"
    and "x \<in> set out" and "osystem_name x = ''custom''" and "a \<in> set (osystem_releases x)"
  shows "h' a = with_override g db (h a)"
proof -
  obtain out1 seen1 h1 where
    run: "gen_responses_loop g db (suppress_failures responses) (\<lambda>_. [], h) = (out1, seen1, h1)"
    by (metis prod_cases3)
  with assms(1) have "out = out1" "h' = h1"
    by (simp_all add: gen_all_known_operating_systems_def)
  with run assms(2-4) show ?thesis
    using gen_responses_loop_custom by blast
qed

text \<open>
  When \<open>get_one\<close> returns nothing for no rows and the row for one row, the lookup is
  decided by the table: with no uploaded boot resource of the release's name the release
  stays as it is, and with exactly one it takes that resource's title, if it has one.
\<close>

lemma gen_all_custom_by_rows:
  assumes "g [] = None" and "\<And>r. g [r] = Some r"
    and "gen_all_known_operating_systems g db responses h = (out, h')"
    and "x \<in> set out" and "osystem_name x = ''custom''" and "a \<in> set (osystem_releases x)"
  shows "(filter (\<lambda>r. rtype r = UPLOADED \<and> name r = release_name (h a)) db = [] \<longrightarrow>
            h' a = h a) \<and>
         (\<forall>r. filter (\<lambda>r. rtype r = UPLOADED \<and> name r = release_name (h a)) db = [r] \<longrightarrow>
            h' a = (case extra r ''title'' of
                      None \<Rightarrow> h a
                    | Some t \<Rightarrow> (h a)\<lparr>release_title := t\<rparr>))"
proof -
  have rows: "filter (\<lambda>r. name r = release_name (h a)) (filter (\<lambda>r. rtype r = UPLOADED) db)
      = filter (\<lambda>r. rtype r = UPLOADED \<and> name r = release_name (h a)) db"
    by (simp add: conj_commute)
  have "h' a = with_override g db (h a)"
    using assms(3-6) by (rule gen_all_custom)
  then show ?thesis
    using assms(1,2)
    by (auto simp: with_override_def override_title_def get_uploaded_resource_with_name_def rows)
qed

lemma gen_osystems_loop_admit_custom:
  assumes "osystem_name x = ''custom''" and "\<not> osystem_in h x (seen ''custom'')"
  shows "gen_osystems_loop g db (x # rest) (seen, h) =
     (case gen_osystems_loop g db rest
             (seen(''custom'' := seen ''custom'' @ [x]),
              snd (fix_custom_osystem_release_titles g db x h)) of
        (out, st) \<Rightarrow> (x # out, st))"
  using assms by (simp add: fix_custom_eq split: prod.splits)

text \<open>
  Claim C5. In \<open>gen_all_known_operating_systems\<close>, an operating system named
  \<open>"custom"\<close> that is admitted is fixed before it is yielded: it is appended to what
  was seen under \<open>"custom"\<close>, it is the next element yielded, and the rest of the loop
  runs in the store that \<open>fix_custom_osystem_release_titles\<close> left. And in the store the
  generator leaves behind, each release of each yielded \<open>"custom"\<close> operating system
  is the release the responses came with, with the title of the uploaded boot resource
  of that name put in if the lookup returned a resource that has a \<open>"title"\<close>, and
  unchanged if the lookup returned nothing or the resource has no \<open>"title"\<close>.
\<close>

theorem custom_titles_fixed:
  "(osystem_name x = ''custom'' \<and> \<not> osystem_in h x (seen ''custom'') \<longrightarrow>
      gen_osystems_loop g db (x # rest) (seen, h) =
        (case gen_osystems_loop g db rest
                (seen(''custom'' := seen ''custom'' @ [x]),
                 snd (fix_custom_osystem_release_titles g db x h)) of
           (out, st) \<Rightarrow> (x # out, st))) \<and>
   (gen_all_known_operating_systems g db responses h0 = (emitted, h') \<and>
    y \<in> set emitted \<and> osystem_name y = ''custom'' \<and> a \<in> set (osystem_releases y) \<longrightarrow>
      (case get_uploaded_resource_with_name g (filter (\<lambda>r. rtype r = UPLOADED) db)
              (release_name (h0 a)) of
         None \<Rightarrow> h' a = h0 a
       | Some resource \<Rightarrow>
           (case extra resource ''title'' of
              None \<Rightarrow> h' a = h0 a
            | Some t \<Rightarrow> h' a = (h0 a)\<lparr>release_title := t\<rparr>)))"
proof (intro conjI impI)
  assume "osystem_name x = ''custom'' \<and> \<not> osystem_in h x (seen ''custom'')"
  then show "gen_osystems_loop g db (x # rest) (seen, h) =
        (case gen_osystems_loop g db rest
                (seen(''custom'' := seen ''custom'' @ [x]),
                 snd (fix_custom_osystem_release_titles g db x h)) of
           (out, st) \<Rightarrow> (x # out, st))"
    using gen_osystems_loop_admit_custom [of x h seen g db rest] by blast
next
  assume run: "gen_all_known_operating_systems g db responses h0 = (emitted, h') \<and>
    y \<in> set emitted \<and> osystem_name y = ''custom'' \<and> a \<in> set (osystem_releases y)"
  then have "h' a = with_override g db (h0 a)"
    using gen_all_custom by blast
  then show "case get_uploaded_resource_with_name g (filter (\<lambda>r. rtype r = UPLOADED) db)
              (release_name (h0 a)) of
         None \<Rightarrow> h' a = h0 a
       | Some resource \<Rightarrow>
           (case extra resource ''title'' of
              None \<Rightarrow> h' a = h0 a
            | Some t \<Rightarrow> h' a = (h0 a)\<lparr>release_title := t\<rparr>)"
    by (simp add: with_override_def override_title_def split: option.splits)
qed

lemmas eval_defs = gen_all_known_operating_systems_def osystem_in_def osystem_eq_def
  fix_custom_osystem_release_titles_def get_uploaded_resource_with_name_def Let_def view_def

lemma sample_run:
  "fst (gen_all_known_operating_systems first_row sample_objects
          [Success \<lparr>osystems = [custom_a]\<rparr>] sample_heap) = [custom_a]"
  by (simp add: eval_defs)

theorem custom_titles_fixed_witness:
  "snd (gen_all_known_operating_systems first_row sample_objects
          [Success \<lparr>osystems = [custom_a]\<rparr>] sample_heap) 0
     = \<lparr>release_name = ''img'', release_title = ''My image'', release_rest = ()\<rparr> \<and>
   snd (gen_all_known_operating_systems first_row sample_objects
          [Success \<lparr>osystems = [custom_a]\<rparr>] sample_heap) 2 = sample_heap 2 \<and>
   snd (gen_all_known_operating_systems first_row sample_objects
          [Success \<lparr>osystems = [custom_a]\<rparr>] sample_heap) 3 = sample_heap 3 \<and>
   fst (gen_osystems_loop first_row sample_objects [custom_a] (\<lambda>_. [], sample_heap)) = [custom_a]"
proof -
  let ?h' = "snd (gen_all_known_operating_systems first_row sample_objects
          [Success \<lparr>osystems = [custom_a]\<rparr>] sample_heap)"
  have run: "gen_all_known_operating_systems first_row sample_objects
          [Success \<lparr>osystems = [custom_a]\<rparr>] sample_heap = ([custom_a], ?h')"
    using sample_run by (simp add: prod_eq_iff)
  have "?h' 0 = \<lparr>release_name = ''img'', release_title = ''My image'', release_rest = ()\<rparr>"
    using run custom_titles_fixed [where g = first_row
      and db = sample_objects and responses = "[Success \<lparr>osystems = [custom_a]\<rparr>]"
      and ?h0.0 = sample_heap and emitted = "[custom_a]" and y = custom_a and a = 0
      and h' = "snd (gen_all_known_operating_systems first_row sample_objects
          [Success \<lparr>osystems = [custom_a]\<rparr>] sample_heap)", THEN conjunct2]
    by (simp add: get_uploaded_resource_with_name_def)
  moreover have "?h' 2 = sample_heap 2"
    using run custom_titles_fixed [where g = first_row
      and db = sample_objects and responses = "[Success \<lparr>osystems = [custom_a]\<rparr>]"
      and ?h0.0 = sample_heap and emitted = "[custom_a]" and y = custom_a and a = 2
      and h' = "snd (gen_all_known_operating_systems first_row sample_objects
          [Success \<lparr>osystems = [custom_a]\<rparr>] sample_heap)", THEN conjunct2]
    by (simp add: get_uploaded_resource_with_name_def)
  moreover have "?h' 3 = sample_heap 3"
    using run custom_titles_fixed [where g = first_row
      and db = sample_objects and responses = "[Success \<lparr>osystems = [custom_a]\<rparr>]"
      and ?h0.0 = sample_heap and emitted = "[custom_a]" and y = custom_a and a = 3
      and h' = "snd (gen_all_known_operating_systems first_row sample_objects
          [Success \<lparr>osystems = [custom_a]\<rparr>] sample_heap)", THEN conjunct2]
    by (simp add: get_uploaded_resource_with_name_def)
  moreover have "fst (gen_osystems_loop first_row sample_objects [custom_a]
      (\<lambda>_. [], sample_heap)) = [custom_a]"
    using custom_titles_fixed [where g = first_row
      and db = sample_objects and x = custom_a and h = sample_heap and seen = "\<lambda>_. []"
      and rest = "[]", THEN conjunct1]
    by (simp add: osystem_in_def del: gen_osystems_loop.simps(2))
  ultimately show ?thesis by blast
qed

text \<open>
  Claim C2, at two clusters that report the same custom operating system. The two
  responses are equal when they arrive, and the uploaded boot resource of the release's
  name has a title. The first operating system is appended to \<open>seen["custom"]\<close> and
  then fixed, in place, so what \<open>seen["custom"]\<close> holds now carries the new title; the
  second, still carrying the old one, is not found in it, and is yielded too. Under any
  other name (here \<open>"ubuntu"\<close>) the same two responses yield one operating system.
\<close>

theorem custom_duplicate_emitted_twice:
  "osystem_eq sample_heap custom_a custom_b \<and>
   fst (gen_all_known_operating_systems first_row sample_objects
          [Success \<lparr>osystems = [custom_a]\<rparr>, Success \<lparr>osystems = [custom_b]\<rparr>] sample_heap)
     = [custom_a, custom_b] \<and>
   map (view (snd (gen_all_known_operating_systems first_row sample_objects
          [Success \<lparr>osystems = [custom_a]\<rparr>, Success \<lparr>osystems = [custom_b]\<rparr>] sample_heap)))
       [custom_a, custom_b]
     = [(''custom'',
         [\<lparr>release_name = ''img'', release_title = ''My image'', release_rest = ()\<rparr>,
          \<lparr>release_name = ''raw'', release_title = ''raw'', release_rest = ()\<rparr>,
          \<lparr>release_name = ''trusty'', release_title = ''trusty'', release_rest = ()\<rparr>], ()),
        (''custom'',
         [\<lparr>release_name = ''img'', release_title = ''My image'', release_rest = ()\<rparr>,
          \<lparr>release_name = ''raw'', release_title = ''raw'', release_rest = ()\<rparr>,
          \<lparr>release_name = ''trusty'', release_title = ''trusty'', release_rest = ()\<rparr>], ())] \<and>
   fst (gen_all_known_operating_systems first_row sample_objects
          [Success \<lparr>osystems = [ubuntu_a]\<rparr>, Success \<lparr>osystems = [ubuntu_b]\<rparr>] sample_heap)
     = [ubuntu_a]"
  by (simp add: eval_defs)

end
